theory Spec2Isabelle
  imports Complex_Main
begin

section \<open>Data model of \<^verbatim>\<open>products/models.py\<close>\<close>

text \<open>
  Every Django model is a record of its columns; a foreign key is the primary key of the
  row it refers to, and a nullable column is an \<open>option\<close>. The primary key of an
  instance that has not been saved yet is \<open>None\<close>. Django compares model instances by
  primary key, so membership and equality tests of the source are tests on ids here.
  The image columns of \<open>Category\<close>, the timestamps of \<open>TimeStampedModel\<close> and the
  whole of \<open>ProductImage\<close> carry no logic of this module and are left out.
\<close>

datatype error = ValidationError string | DoesNotExist | IntegrityError

record characteristic =
  ch_id :: nat
  ch_category :: nat
  ch_name :: string

record category =
  cat_id :: "nat option"
  cat_name :: string
  cat_slug :: string
  cat_parent :: "nat option"
  order_number :: nat

record product =
  prod_id :: "nat option"
  prod_name :: string
  prod_slug :: string
  prod_code :: string
  brand :: string
  prod_category :: nat
  short_description :: string
  description :: string
  is_active :: bool
  price :: int

text \<open>
  \<open>value_float\<close> is a Python float; its type is left open as \<open>'f\<close>, and the builtin
  \<open>float()\<close> is a parameter \<open>string \<Rightarrow> 'f option\<close> of the functions that call
  it, \<open>None\<close> standing for \<open>ValueError\<close>.
\<close>

record 'f product_attribute =
  attr_id :: "nat option"
  attr_characteristic :: "nat option"
  attr_product :: "nat option"
  attr_name :: string
  attr_value :: string
  value_float :: "'f option"

text \<open>The backing store: one table (a list of rows) per model.\<close>

record 'f database =
  categories :: "category list"
  characteristics :: "characteristic list"
  products :: "product list"
  attributes :: "'f product_attribute list"

subsection \<open>Validation errors\<close>

text \<open>
  The source raises \<open>ValidationError\<close> with a message; the kinds of the specification
  are the five messages of the source.
\<close>

fun join :: "string \<Rightarrow> string list \<Rightarrow> string" where
  "join sep [] = []"
| "join sep [x] = x"
| "join sep (x # y # ys) = x @ sep @ join sep (y # ys)"

definition DuplicateSiblingSlug :: error where
  "DuplicateSiblingSlug = ValidationError
     ''Category with same name already exists on the same level. Please choose another name.''"

definition IllegalCategoryChange :: error where
  "IllegalCategoryChange = ValidationError
     ''Product category can be changed only to child category''"

definition MissingCharacteristicCoverage :: "string list \<Rightarrow> error" where
  "MissingCharacteristicCoverage names = ValidationError
     (''Attributes for characteristics: '' @ join '', '' names @ '' has to defined'')"

definition AttributeIdentityConflict :: error where
  "AttributeIdentityConflict = ValidationError
     ''Product attribute can not have name if it is connected to characteristic.''"

definition AttributeIdentityMissing :: error where
  "AttributeIdentityMissing = ValidationError
     ''Characteristic or name has to be defined for product attribute.''"

section \<open>Category\<close>

text \<open>
  \<open>Category.objects.get(id=i)\<close>; the query sets of \<open>Category\<close> are ordered by
  \<open>order_number\<close> (\<open>Meta.ordering\<close>).
\<close>

definition get_category :: "'f database \<Rightarrow> nat \<Rightarrow> error + category" where
  "get_category db i =
     (case find (\<lambda>c. cat_id c = Some i) (categories db) of
        None \<Rightarrow> Inl DoesNotExist
      | Some c \<Rightarrow> Inr c)"

definition get_top_categories :: "'f database \<Rightarrow> category list" where
  "get_top_categories db =
     sort_key order_number (filter (\<lambda>c. cat_parent c = None) (categories db))"

definition get_siblings :: "'f database \<Rightarrow> category \<Rightarrow> category list" where
  "get_siblings db c =
     (if cat_parent c = None
      then filter (\<lambda>x. cat_id x \<noteq> cat_id c) (get_top_categories db)
      else filter (\<lambda>x. cat_id x \<noteq> cat_id c)
             (sort_key order_number
                (filter (\<lambda>x. cat_parent x = cat_parent c) (categories db))))"

text \<open>
  \<open>self.children.all()\<close>: the rows whose parent is this category; the related manager
  of an unsaved instance yields nothing.
\<close>

definition children :: "'f database \<Rightarrow> category \<Rightarrow> category list" where
  "children db c =
     (case cat_id c of
        None \<Rightarrow> []
      | Some i \<Rightarrow> sort_key order_number
                   (filter (\<lambda>x. cat_parent x = Some i) (categories db)))"

text \<open>
  The two generators are recursive and run forever on a cyclic parent chain. They are
  modelled with fuel, one unit per call: \<open>None\<close> means that the fuel ran out, and the
  generator is materialised as the list of what it yields.
\<close>

fun get_ancestors :: "nat \<Rightarrow> 'f database \<Rightarrow> category \<Rightarrow> (error + category list) option" where
  "get_ancestors 0 db c = None"
| "get_ancestors (Suc n) db c =
     (case cat_parent c of
        None \<Rightarrow> Some (Inr [])
      | Some pid \<Rightarrow>
          (case get_category db pid of
             Inl e \<Rightarrow> Some (Inl e)
           | Inr p \<Rightarrow>
               (case get_ancestors n db p of
                  None \<Rightarrow> None
                | Some (Inl e) \<Rightarrow> Some (Inl e)
                | Some (Inr ancestors) \<Rightarrow> Some (Inr (p # ancestors)))))"

fun concat_option :: "'a list option list \<Rightarrow> 'a list option" where
  "concat_option [] = Some []"
| "concat_option (None # rs) = None"
| "concat_option (Some xs # rs) = map_option ((@) xs) (concat_option rs)"

fun get_descendants :: "nat \<Rightarrow> 'f database \<Rightarrow> category \<Rightarrow> category list option" where
  "get_descendants 0 db c = None"
| "get_descendants (Suc n) db c =
     concat_option
       (map (\<lambda>child. map_option ((#) child) (get_descendants n db child)) (children db c))"

definition category_characteristics :: "'f database \<Rightarrow> category \<Rightarrow> characteristic list" where
  "category_characteristics db c =
     (case cat_id c of
        None \<Rightarrow> []
      | Some i \<Rightarrow> filter (\<lambda>x. ch_category x = i) (characteristics db))"

text \<open>
  \<open>get_all_characteristics\<close>: the loop runs once per ancestor, and its body reads
  \<open>self.parent.characteristics\<close>, not the characteristics of the loop variable.
\<close>

definition get_all_characteristics ::
  "nat \<Rightarrow> 'f database \<Rightarrow> category \<Rightarrow> (error + characteristic list) option" where
  "get_all_characteristics fuel db c =
     (case get_ancestors fuel db c of
        None \<Rightarrow> None
      | Some (Inl e) \<Rightarrow> Some (Inl e)
      | Some (Inr ancestors) \<Rightarrow>
          (case ancestors of
             [] \<Rightarrow> Some (Inr (category_characteristics db c))
           | parent # _ \<Rightarrow>
               Some (Inr (foldl (\<lambda>chs ancestor. chs @ category_characteristics db parent)
                            (category_characteristics db c) ancestors))))"

text \<open>
  \<open>slugify\<close> (Django) and \<open>unidecode\<close> are library functions and are parameters.
  \<open>clean\<close> assigns the slug to the instance and then raises or returns: the model
  returns the instance as it is afterwards together with the outcome.
\<close>

definition clean_category ::
  "(string \<Rightarrow> string) \<Rightarrow> (string \<Rightarrow> string) \<Rightarrow> 'f database \<Rightarrow> category
     \<Rightarrow> category \<times> (error + unit)" where
  "clean_category slugify unidecode db c =
     (let c' = c\<lparr>cat_slug := slugify (unidecode (cat_name c))\<rparr>
      in (c', if filter (\<lambda>s. cat_slug s = cat_slug c') (get_siblings db c') \<noteq> []
              then Inl DuplicateSiblingSlug
              else Inr ()))"

text \<open>
  \<open>Model.save\<close> of the framework: an instance without primary key is inserted under a
  fresh one, an instance with a primary key replaces the row of that key or is inserted
  under it. Columns declared \<open>unique=True\<close> raise \<open>IntegrityError\<close> when another row
  holds the value.
\<close>

definition fresh_id :: "nat option list \<Rightarrow> nat" where
  "fresh_id ids = Suc (fold (\<lambda>i m. case i of None \<Rightarrow> m | Some k \<Rightarrow> max k m) ids 0)"

definition store_category :: "'f database \<Rightarrow> category \<Rightarrow> category \<times> 'f database" where
  "store_category db c =
     (let c' = (case cat_id c of
                  None \<Rightarrow> c\<lparr>cat_id := Some (fresh_id (map cat_id (categories db)))\<rparr>
                | Some i \<Rightarrow> c)
      in (c', db\<lparr>categories :=
                  filter (\<lambda>x. cat_id x \<noteq> cat_id c') (categories db) @ [c']\<rparr>))"

definition save_category ::
  "(string \<Rightarrow> string) \<Rightarrow> (string \<Rightarrow> string) \<Rightarrow> 'f database \<Rightarrow> category
     \<Rightarrow> category \<times> 'f database" where
  "save_category slugify unidecode db c =
     store_category db (c\<lparr>cat_slug := slugify (unidecode (cat_name c))\<rparr>)"

section \<open>ProductAttribute\<close>

text \<open>
  \<open>clean\<close> tests the truth value of both fields: a characteristic is true when it is
  not \<open>None\<close>, a name when it is not the empty string.
\<close>

definition clean_attribute :: "'f product_attribute \<Rightarrow> error + unit" where
  "clean_attribute a =
     (if attr_characteristic a \<noteq> None \<and> attr_name a \<noteq> []
      then Inl AttributeIdentityConflict
      else if \<not> (attr_characteristic a \<noteq> None) \<and> \<not> (attr_name a \<noteq> [])
      then Inl AttributeIdentityMissing
      else Inr ())"

definition store_attribute ::
  "'f database \<Rightarrow> 'f product_attribute \<Rightarrow> 'f product_attribute \<times> 'f database" where
  "store_attribute db a =
     (let a' = (case attr_id a of
                  None \<Rightarrow> a\<lparr>attr_id := Some (fresh_id (map attr_id (attributes db)))\<rparr>
                | Some i \<Rightarrow> a)
      in (a', db\<lparr>attributes :=
                  filter (\<lambda>x. attr_id x \<noteq> attr_id a') (attributes db) @ [a']\<rparr>))"

definition save_attribute ::
  "(string \<Rightarrow> 'f option) \<Rightarrow> 'f database \<Rightarrow> 'f product_attribute
     \<Rightarrow> 'f product_attribute \<times> 'f database" where
  "save_attribute float db a =
     store_attribute db
       (case float (attr_value a) of
          Some x \<Rightarrow> a\<lparr>value_float := Some x\<rparr>
        | None \<Rightarrow> a)"

section \<open>Product\<close>

definition get_product :: "'f database \<Rightarrow> nat \<Rightarrow> error + product" where
  "get_product db i =
     (case find (\<lambda>p. prod_id p = Some i) (products db) of
        None \<Rightarrow> Inl DoesNotExist
      | Some p \<Rightarrow> Inr p)"

text \<open>
  \<open>predefined_attributes\<close> is an attribute that the caller may put on the instance
  (read with \<open>getattr(self, 'predefined_attributes', [])\<close>); it is an argument of the
  functions that read it.
\<close>

definition get_all_attributes ::
  "'f database \<Rightarrow> product \<Rightarrow> 'f product_attribute list \<Rightarrow> 'f product_attribute list" where
  "get_all_attributes db p predefined_attributes =
     (case prod_id p of
        None \<Rightarrow> []
      | Some i \<Rightarrow> filter (\<lambda>a. attr_product a = Some i) (attributes db))
     @ predefined_attributes"

text \<open>The first block of \<open>Product.clean\<close>: the category may only move to a descendant.\<close>

definition check_category_change ::
  "nat \<Rightarrow> 'f database \<Rightarrow> product \<Rightarrow> (error + unit) option" where
  "check_category_change fuel db p =
     (case prod_id p of
        None \<Rightarrow> Some (Inr ())
      | Some i \<Rightarrow>
          (case get_product db i of
             Inl e \<Rightarrow> Some (Inl e)
           | Inr previous \<Rightarrow>
               (case get_category db (prod_category previous) of
                  Inl e \<Rightarrow> Some (Inl e)
                | Inr previous_category \<Rightarrow>
                    if cat_id previous_category \<noteq> Some (prod_category p)
                    then (case get_descendants fuel db previous_category of
                            None \<Rightarrow> None
                          | Some descendants \<Rightarrow>
                              if Some (prod_category p) \<notin> set (map cat_id descendants)
                              then Some (Inl IllegalCategoryChange)
                              else Some (Inr ()))
                    else Some (Inr ()))))"

text \<open>
  The second block: the set difference of the category's characteristics and the
  characteristics of the product's attributes. A Python set has no order; the model
  keeps the first occurrences in the order of \<open>get_all_characteristics\<close>.
\<close>

definition check_characteristics ::
  "nat \<Rightarrow> 'f database \<Rightarrow> product \<Rightarrow> 'f product_attribute list \<Rightarrow> (error + unit) option" where
  "check_characteristics fuel db p predefined_attributes =
     (case get_category db (prod_category p) of
        Inl e \<Rightarrow> Some (Inl e)
      | Inr c \<Rightarrow>
          (case get_all_characteristics fuel db c of
             None \<Rightarrow> None
           | Some (Inl e) \<Rightarrow> Some (Inl e)
           | Some (Inr category_chs) \<Rightarrow>
               (let attributes_chs =
                      map attr_characteristic (get_all_attributes db p predefined_attributes);
                    required_chs =
                      remdups (filter (\<lambda>ch. Some (ch_id ch) \<notin> set attributes_chs) category_chs)
                in if required_chs \<noteq> []
                   then Some (Inl (MissingCharacteristicCoverage (map ch_name required_chs)))
                   else Some (Inr ()))))"

definition clean_product ::
  "nat \<Rightarrow> 'f database \<Rightarrow> product \<Rightarrow> 'f product_attribute list \<Rightarrow> (error + unit) option" where
  "clean_product fuel db p predefined_attributes =
     (case check_category_change fuel db p of
        None \<Rightarrow> None
      | Some (Inl e) \<Rightarrow> Some (Inl e)
      | Some (Inr u) \<Rightarrow> check_characteristics fuel db p predefined_attributes)"

definition store_product :: "'f database \<Rightarrow> product \<Rightarrow> error + product \<times> 'f database" where
  "store_product db p =
     (let p' = (case prod_id p of
                  None \<Rightarrow> p\<lparr>prod_id := Some (fresh_id (map prod_id (products db)))\<rparr>
                | Some i \<Rightarrow> p);
          others = filter (\<lambda>x. prod_id x \<noteq> prod_id p') (products db)
      in if (\<exists>x \<in> set others. prod_name x = prod_name p' \<or> prod_slug x = prod_slug p'
                                 \<or> prod_code x = prod_code p')
         then Inl IntegrityError
         else Inr (p', db\<lparr>products := others @ [p']\<rparr>))"

text \<open>
  \<open>Product.save\<close>: the slug, the row, then every predefined attribute, each bound to
  the product and saved. The attributes are mutated in place, so they are returned.
\<close>

fun save_predefined ::
  "(string \<Rightarrow> 'f option) \<Rightarrow> product \<Rightarrow> 'f database \<Rightarrow> 'f product_attribute list
     \<Rightarrow> 'f product_attribute list \<times> 'f database" where
  "save_predefined float p db [] = ([], db)"
| "save_predefined float p db (attribute # rest) =
     (case save_attribute float db (attribute\<lparr>attr_product := prod_id p\<rparr>) of
        (attribute', db') \<Rightarrow>
          (case save_predefined float p db' rest of
             (rest', db'') \<Rightarrow> (attribute' # rest', db'')))"

definition save_product ::
  "(string \<Rightarrow> string) \<Rightarrow> (string \<Rightarrow> string) \<Rightarrow> (string \<Rightarrow> 'f option) \<Rightarrow> 'f database
     \<Rightarrow> product \<Rightarrow> 'f product_attribute list
     \<Rightarrow> error + product \<times> 'f product_attribute list \<times> 'f database" where
  "save_product slugify unidecode float db p predefined_attributes =
     (case store_product db (p\<lparr>prod_slug := slugify (unidecode (prod_name p))\<rparr>) of
        Inl e \<Rightarrow> Inl e
      | Inr (p', db') \<Rightarrow>
          (case save_predefined float p' db' predefined_attributes of
             (saved, db'') \<Rightarrow> Inr (p', saved, db'')))"

section \<open>Well-formed category trees\<close>

text \<open>
  A table of categories is a well-formed tree when primary keys are set and unique and
  the parent chain of every row reaches a root (a row without parent) through existing
  rows within as many steps as the table has rows. A chain that does not repeat a row
  cannot be longer, so this holds of every acyclic table without dangling parents.
\<close>

fun reaches_root :: "nat \<Rightarrow> 'f database \<Rightarrow> nat option \<Rightarrow> bool" where
  "reaches_root n db None = True"
| "reaches_root 0 db (Some i) = False"
| "reaches_root (Suc n) db (Some i) =
     (case get_category db i of
        Inl e \<Rightarrow> False
      | Inr p \<Rightarrow> reaches_root n db (cat_parent p))"

definition wf_tree :: "'f database \<Rightarrow> bool" where
  "wf_tree db \<longleftrightarrow>
     distinct (map cat_id (categories db)) \<and>
     (\<forall>c \<in> set (categories db).
        cat_id c \<noteq> None \<and> reaches_root (length (categories db)) db (cat_parent c))"

section \<open>A small catalogue\<close>

text \<open>
  The scenario of the specification: ``Root'' with the children ``Electronics'' and
  ``Furniture'', ``LED Lamps'' below ``Electronics'', the characteristics ``Warranty'' of
  ``Root'' and ``Voltage'' of ``Electronics'', and the product ``Lamp''. The example names
  that are cleaned or saved are lower-case ASCII words, which \<open>slugify\<close> and
  \<open>unidecode\<close> leave as they are, so \<open>id\<close> stands for both; \<open>float_literal\<close> agrees
  with \<open>float()\<close> on the strings the examples use.
\<close>

definition root_cat :: category where
  "root_cat = \<lparr>cat_id = Some 1, cat_name = ''Root'', cat_slug = ''root'',
                cat_parent = None, order_number = 0\<rparr>"

definition electronics :: category where
  "electronics = \<lparr>cat_id = Some 2, cat_name = ''Electronics'', cat_slug = ''electronics'',
                   cat_parent = Some 1, order_number = 0\<rparr>"

definition furniture :: category where
  "furniture = \<lparr>cat_id = Some 3, cat_name = ''Furniture'', cat_slug = ''furniture'',
                 cat_parent = Some 1, order_number = 1\<rparr>"

definition led_lamps :: category where
  "led_lamps = \<lparr>cat_id = Some 4, cat_name = ''LED Lamps'', cat_slug = ''led-lamps'',
                 cat_parent = Some 2, order_number = 0\<rparr>"

definition warranty :: characteristic where
  "warranty = \<lparr>ch_id = 1, ch_category = 1, ch_name = ''Warranty''\<rparr>"

definition voltage :: characteristic where
  "voltage = \<lparr>ch_id = 2, ch_category = 2, ch_name = ''Voltage''\<rparr>"

definition lamp :: product where
  "lamp = \<lparr>prod_id = Some 1, prod_name = ''Lamp'', prod_slug = ''lamp'', prod_code = ''L-1'',
            brand = '''', prod_category = 2, short_description = '''', description = '''',
            is_active = True, price = 1999\<rparr>"

definition bound_to :: "nat \<Rightarrow> string \<Rightarrow> real product_attribute" where
  "bound_to ch v = \<lparr>attr_id = None, attr_characteristic = Some ch, attr_product = None,
                     attr_name = '''', attr_value = v, value_float = None\<rparr>"

definition shop :: "real database" where
  "shop = \<lparr>categories = [root_cat, electronics, furniture, led_lamps],
            characteristics = [warranty, voltage],
            products = [lamp],
            attributes = []\<rparr>"

definition float_literal :: "string \<Rightarrow> real option" where
  "float_literal = map_of [(''220'', 220), (''19.99'', 1999 / 100)]"

definition new_category :: "string \<Rightarrow> category" where
  "new_category n = \<lparr>cat_id = None, cat_name = n, cat_slug = ''stale'',
                      cat_parent = Some 1, order_number = 2\<rparr>"

definition desk_lamp :: product where
  "desk_lamp = \<lparr>prod_id = None, prod_name = ''desk-lamp'', prod_slug = '''', prod_code = ''L-2'',
            brand = '''', prod_category = 2, short_description = '''', description = '''',
            is_active = True, price = 2999\<rparr>"

section \<open>Properties of the tree walks\<close>

lemma get_category_in:
  "get_category db i = Inr p \<Longrightarrow> p \<in> set (categories db) \<and> cat_id p = Some i"
  by (auto simp: get_category_def find_Some_iff split: option.splits)

lemma get_category_self:
  assumes "distinct (map cat_id (categories db))" "c \<in> set (categories db)" "cat_id c = Some i"
  shows "get_category db i = Inr c"
proof -
  from assms(2,3) have "find (\<lambda>c. cat_id c = Some i) (categories db) \<noteq> None"
    by (auto simp: find_None_iff)
  then obtain q where q: "get_category db i = Inr q"
    by (auto simp: get_category_def)
  then have "q \<in> set (categories db)" "cat_id q = cat_id c"
    using get_category_in [OF q] assms(3) by auto
  with assms(1,2) have "q = c"
    by (meson distinct_map inj_onD)
  with q show ?thesis by simp
qed

lemma ancestors_terminate:
  "reaches_root n db (cat_parent c) \<Longrightarrow>
     \<exists>xs. get_ancestors (Suc n) db c = Some (Inr xs) \<and> length xs \<le> n"
proof (induction n arbitrary: c)
  case 0
  then show ?case by (cases "cat_parent c") auto
next
  case (Suc n)
  show ?case
  proof (cases "cat_parent c")
    case None
    then show ?thesis by simp
  next
    case (Some pid)
    with Suc.prems obtain p where p: "get_category db pid = Inr p"
      and r: "reaches_root n db (cat_parent p)"
      by (auto split: sum.splits)
    from Suc.IH [OF r] obtain xs where "get_ancestors (Suc n) db p = Some (Inr xs)" "length xs \<le> n"
      by blast
    with Some p show ?thesis by simp
  qed
qed

lemma ancestors_fuel_mono:
  "get_ancestors n db c = Some r \<Longrightarrow> n \<le> m \<Longrightarrow> get_ancestors m db c = Some r"
proof (induction n arbitrary: m c r)
  case 0
  then show ?case by simp
next
  case (Suc n)
  from Suc.prems(2) obtain m' where m: "m = Suc m'" "n \<le> m'"
    by (cases m) auto
  show ?case
  proof (cases "cat_parent c")
    case None
    with Suc.prems(1) m show ?thesis by simp
  next
    case (Some pid)
    show ?thesis
    proof (cases "get_category db pid")
      case (Inl e)
      with Some Suc.prems(1) m show ?thesis by simp
    next
      case (Inr p)
      with Some Suc.prems(1) obtain r' where r': "get_ancestors n db p = Some r'"
        by (auto split: option.splits)
      from Suc.IH [OF r' m(2)] r' Some Inr Suc.prems(1) m show ?thesis by simp
    qed
  qed
qed

lemma ancestors_in_table:
  "get_ancestors n db c = Some (Inr xs) \<Longrightarrow> set xs \<subseteq> set (categories db)"
proof (induction n arbitrary: c xs)
  case 0
  then show ?case by simp
next
  case (Suc n)
  show ?case
  proof (cases "cat_parent c")
    case None
    with Suc.prems show ?thesis by simp
  next
    case (Some pid)
    with Suc.prems obtain p ys where p: "get_category db pid = Inr p"
      "get_ancestors n db p = Some (Inr ys)" "xs = p # ys"
      by (auto split: option.splits sum.splits)
    from Suc.IH [OF p(2)] get_category_in [OF p(1)] p(3) show ?thesis by simp
  qed
qed

lemma ancestors_of_member:
  "get_ancestors n db c = Some (Inr xs) \<Longrightarrow> a \<in> set xs \<Longrightarrow>
     \<exists>m ys. get_ancestors m db a = Some (Inr ys) \<and> length ys < length xs"
proof (induction n arbitrary: c xs)
  case 0
  then show ?case by simp
next
  case (Suc n)
  from Suc.prems obtain pid p ys where c: "cat_parent c = Some pid" "get_category db pid = Inr p"
    "get_ancestors n db p = Some (Inr ys)" "xs = p # ys"
    by (auto split: option.splits sum.splits)
  show ?case
  proof (cases "a = p")
    case True
    with c show ?thesis by auto
  next
    case False
    with Suc.prems(2) c have "a \<in> set ys" by simp
    from Suc.IH [OF c(3) this] obtain m zs
      where "get_ancestors m db a = Some (Inr zs)" "length zs < length ys" by blast
    with c(4) have "get_ancestors m db a = Some (Inr zs) \<and> length zs < length xs" by simp
    then show ?thesis by blast
  qed
qed

lemma ancestors_same_parent:
  "cat_parent a = cat_parent c \<Longrightarrow> get_ancestors n db a = get_ancestors n db c"
  by (cases n) simp_all

lemma ancestors_no_self:
  assumes d: "distinct (map cat_id (categories db))" and c: "c \<in> set (categories db)"
    and g: "get_ancestors n db c = Some (Inr xs)"
  shows "cat_id c \<notin> cat_id ` set xs"
proof
  assume "cat_id c \<in> cat_id ` set xs"
  then obtain a where a: "a \<in> set xs" "cat_id a = cat_id c" by auto
  with ancestors_in_table [OF g] have "a \<in> set (categories db)" by auto
  with d c a(2) have "a = c" by (meson distinct_map inj_onD)
  with ancestors_of_member [OF g a(1)] obtain m ys
    where ys: "get_ancestors m db c = Some (Inr ys)" "length ys < length xs" by auto
  have "get_ancestors (max n m) db c = Some (Inr xs)"
    using ancestors_fuel_mono [OF g] by simp
  moreover have "get_ancestors (max n m) db c = Some (Inr ys)"
    using ancestors_fuel_mono [OF ys(1)] by simp
  ultimately show False using ys(2) by simp
qed


lemma concat_option_map:
  "concat_option (map (\<lambda>ch. map_option ((#) ch) (g ch)) cs) =
     (if \<forall>ch \<in> set cs. g ch \<noteq> None
      then Some (concat (map (\<lambda>ch. ch # the (g ch)) cs))
      else None)"
proof (induction cs)
  case Nil
  then show ?case by simp
next
  case (Cons a cs)
  then show ?case by (cases "g a") auto
qed

lemma ancestors_step:
  "cat_parent ch = Some i \<Longrightarrow> get_category db i = Inr c \<Longrightarrow>
   get_ancestors n db c = Some (Inr xs) \<Longrightarrow>
   get_ancestors (Suc n) db ch = Some (Inr (c # xs))"
  by simp

lemma descendants_same_id:
  "cat_id a = cat_id c \<Longrightarrow> get_descendants n db a = get_descendants n db c"
  by (cases n) (simp_all add: children_def)

lemma children_in_table:
  "ch \<in> set (children db c) \<Longrightarrow> ch \<in> set (categories db) \<and> cat_parent ch = cat_id c"
  by (auto simp: children_def split: option.splits)

lemma descendants_Suc:
  "get_descendants (Suc n) db c = Some xs \<longleftrightarrow>
     (\<forall>ch \<in> set (children db c). get_descendants n db ch \<noteq> None) \<and>
     xs = concat (map (\<lambda>ch. ch # the (get_descendants n db ch)) (children db c))"
  by (auto simp: concat_option_map)

lemma descendants_fuel_mono:
  "get_descendants n db c = Some xs \<Longrightarrow> n \<le> m \<Longrightarrow> get_descendants m db c = Some xs"
proof (induction n arbitrary: m c xs)
  case 0
  then show ?case by simp
next
  case (Suc n)
  from Suc.prems(2) obtain m' where m: "m = Suc m'" "n \<le> m'"
    by (cases m) auto
  from Suc.prems(1) [unfolded descendants_Suc]
  have all: "\<forall>ch \<in> set (children db c). get_descendants n db ch \<noteq> None"
    and xs: "xs = concat (map (\<lambda>ch. ch # the (get_descendants n db ch)) (children db c))"
    by simp_all
  have same: "get_descendants m' db ch = get_descendants n db ch"
    if "ch \<in> set (children db c)" for ch
  proof -
    from all that obtain ys where "get_descendants n db ch = Some ys" by auto
    with Suc.IH [OF this m(2)] show ?thesis by simp
  qed
  have "map (\<lambda>ch. ch # the (get_descendants m' db ch)) (children db c)
        = map (\<lambda>ch. ch # the (get_descendants n db ch)) (children db c)"
    using same by simp
  with all xs same m(1) show ?case
    by (simp only: descendants_Suc) simp
qed

lemma descendants_of_member:
  "get_descendants n db c = Some xs \<Longrightarrow> d \<in> set xs \<Longrightarrow>
     \<exists>m ys. get_descendants m db d = Some ys \<and> length ys < length xs"
proof (induction n arbitrary: c xs)
  case 0
  then show ?case by simp
next
  case (Suc n)
  from Suc.prems(1) [unfolded descendants_Suc]
  have all: "\<forall>ch \<in> set (children db c). get_descendants n db ch \<noteq> None"
    and xs: "xs = concat (map (\<lambda>ch. ch # the (get_descendants n db ch)) (children db c))"
    by simp_all
  from Suc.prems(2) xs obtain ch where ch: "ch \<in> set (children db c)"
    "d \<in> set (ch # the (get_descendants n db ch))" by auto
  from all ch(1) obtain zs where zs: "get_descendants n db ch = Some zs" by auto
  have len: "length (ch # zs) \<le> length xs"
  proof -
    from ch(1) obtain us vs where "children db c = us @ ch # vs"
      by (auto simp: in_set_conv_decomp)
    with xs zs show ?thesis by simp
  qed
  show ?case
  proof (cases "d = ch")
    case True
    with zs len have "get_descendants n db d = Some zs \<and> length zs < length xs" by simp
    then show ?thesis by blast
  next
    case False
    with ch(2) zs have "d \<in> set zs" by simp
    from Suc.IH [OF zs this] obtain m ys
      where "get_descendants m db d = Some ys" "length ys < length zs" by blast
    with len have "get_descendants m db d = Some ys \<and> length ys < length xs" by simp
    then show ?thesis by blast
  qed
qed

lemma descendants_no_self:
  assumes g: "get_descendants n db c = Some xs"
  shows "cat_id c \<notin> cat_id ` set xs"
proof
  assume "cat_id c \<in> cat_id ` set xs"
  then obtain a where a: "a \<in> set xs" "cat_id a = cat_id c" by auto
  from descendants_of_member [OF g a(1)] obtain m ys
    where ys: "get_descendants m db a = Some ys" "length ys < length xs" by auto
  from ys(1) a(2) have "get_descendants m db c = Some ys"
    by (simp add: descendants_same_id [of a c])
  from descendants_fuel_mono [OF this, of "max n m"] descendants_fuel_mono [OF g, of "max n m"]
  have "ys = xs" by simp
  with ys(2) show False by simp
qed

lemma descendants_in_table:
  "get_descendants n db c = Some xs \<Longrightarrow> set xs \<subseteq> set (categories db)"
proof (induction n arbitrary: c xs)
  case 0
  then show ?case by simp
next
  case (Suc n)
  from Suc.prems(1) [unfolded descendants_Suc]
  have all: "\<forall>ch \<in> set (children db c). get_descendants n db ch \<noteq> None"
    and xs: "xs = concat (map (\<lambda>ch. ch # the (get_descendants n db ch)) (children db c))"
    by simp_all
  show ?case
  proof
    fix d assume "d \<in> set xs"
    with xs obtain ch where ch: "ch \<in> set (children db c)"
      "d \<in> set (ch # the (get_descendants n db ch))" by auto
    from all ch(1) obtain zs where zs: "get_descendants n db ch = Some zs" by auto
    from Suc.IH [OF zs] ch zs children_in_table [OF ch(1)] show "d \<in> set (categories db)"
      by auto
  qed
qed

lemma wf_tree_ancestors:
  assumes "wf_tree db" "c \<in> set (categories db)"
  shows "\<exists>xs. get_ancestors (Suc (length (categories db))) db c = Some (Inr xs)
              \<and> length xs \<le> length (categories db)"
  using assms ancestors_terminate [of "length (categories db)" db c]
  by (simp add: wf_tree_def)

lemma descendants_terminate_aux:
  assumes wf: "wf_tree db"
  shows "c \<in> set (categories db) \<Longrightarrow>
         get_ancestors (Suc (length (categories db))) db c = Some (Inr xs) \<Longrightarrow>
         Suc (length (categories db)) - length xs \<le> k \<Longrightarrow>
         \<exists>ds. get_descendants k db c = Some ds"
proof (induction k arbitrary: c xs)
  case 0
  from wf_tree_ancestors [OF wf "0.prems"(1)] "0.prems"(2)
  have "length xs \<le> length (categories db)" by auto
  with "0.prems"(3) show ?case by simp
next
  case (Suc k)
  let ?N = "length (categories db)"
  from wf have d: "distinct (map cat_id (categories db))" by (simp add: wf_tree_def)
  have "get_descendants k db ch \<noteq> None" if ch: "ch \<in> set (children db c)" for ch
  proof -
    from children_in_table [OF ch] have chin: "ch \<in> set (categories db)"
      and par: "cat_parent ch = cat_id c" by auto
    from wf Suc.prems(1) obtain i where i: "cat_id c = Some i" by (auto simp: wf_tree_def)
    from get_category_self [OF d Suc.prems(1) i] have gc: "get_category db i = Inr c" .
    from wf_tree_ancestors [OF wf chin] obtain ys
      where ys: "get_ancestors (Suc ?N) db ch = Some (Inr ys)" "length ys \<le> ?N" by blast
    from par i have "cat_parent ch = Some i" by simp
    from ancestors_step [OF this gc Suc.prems(2)]
    have "get_ancestors (Suc (Suc ?N)) db ch = Some (Inr (c # xs))" .
    moreover from ancestors_fuel_mono [OF ys(1), of "Suc (Suc ?N)"]
    have "get_ancestors (Suc (Suc ?N)) db ch = Some (Inr ys)" by simp
    ultimately have "ys = c # xs" by simp
    with Suc.prems(3) ys(2) have "Suc ?N - length ys \<le> k" by simp
    from Suc.IH [OF chin ys(1) this] show ?thesis by auto
  qed
  then show ?case by (simp only: descendants_Suc) simp
qed

lemma wf_tree_descendants:
  assumes "wf_tree db" "c \<in> set (categories db)"
  shows "\<exists>ds. get_descendants (Suc (length (categories db))) db c = Some ds"
proof -
  from wf_tree_ancestors [OF assms] obtain xs
    where "get_ancestors (Suc (length (categories db))) db c = Some (Inr xs)" by blast
  from descendants_terminate_aux [OF assms(1) assms(2) this, of "Suc (length (categories db))"]
  show ?thesis by simp
qed

section \<open>Properties of the characteristics and of saving\<close>

lemma foldl_append_const:
  "foldl (\<lambda>chs ancestor. chs @ ys) acc xs = acc @ concat (replicate (length xs) ys)"
  by (induction xs arbitrary: acc) simp_all

lemma all_characteristics_set:
  assumes "get_all_characteristics fuel db c = Some (Inr chs)"
  shows "set chs = set (category_characteristics db c) \<union>
           (case cat_parent c of
              None \<Rightarrow> {}
            | Some pid \<Rightarrow> (case get_category db pid of
                             Inl e \<Rightarrow> {}
                           | Inr q \<Rightarrow> set (category_characteristics db q)))"
proof (cases fuel)
  case 0
  with assms show ?thesis by (simp add: get_all_characteristics_def)
next
  case (Suc n)
  show ?thesis
  proof (cases "cat_parent c")
    case None
    with assms Suc show ?thesis by (auto simp: get_all_characteristics_def)
  next
    case (Some pid)
    with assms Suc obtain q ys where q: "get_category db pid = Inr q"
      "get_ancestors fuel db c = Some (Inr (q # ys))"
      by (auto simp: get_all_characteristics_def split: sum.splits option.splits)
    with assms Some show ?thesis
      by (auto simp: get_all_characteristics_def foldl_append_const)
  qed
qed

lemma wf_tree_all_characteristics:
  assumes "wf_tree db" "c \<in> set (categories db)" "length (categories db) < fuel"
  shows "\<exists>chs. get_all_characteristics fuel db c = Some (Inr chs)"
proof -
  from wf_tree_ancestors [OF assms(1,2)] obtain xs
    where "get_ancestors (Suc (length (categories db))) db c = Some (Inr xs)" by blast
  from ancestors_fuel_mono [OF this, of fuel] assms(3)
  have "get_ancestors fuel db c = Some (Inr xs)" by simp
  then show ?thesis
    by (cases xs) (simp_all add: get_all_characteristics_def)
qed

lemma all_characteristics_in_table:
  assumes "get_all_characteristics fuel db c = Some (Inr chs)"
  shows "set chs \<subseteq> set (characteristics db)"
  unfolding all_characteristics_set [OF assms]
  by (auto simp: category_characteristics_def split: option.splits sum.splits)

lemma save_predefined_products:
  "save_predefined float p db attrs = (saved, db') \<Longrightarrow> products db' = products db"
proof (induction attrs arbitrary: db saved db')
  case Nil
  then show ?case by simp
next
  case (Cons a attrs)
  obtain a' db1 where s: "save_attribute float db (a\<lparr>attr_product := prod_id p\<rparr>) = (a', db1)"
    by (cases "save_attribute float db (a\<lparr>attr_product := prod_id p\<rparr>)")
  obtain rest db2 where r: "save_predefined float p db1 attrs = (rest, db2)"
    by (cases "save_predefined float p db1 attrs")
  from s have "products db1 = products db"
    by (auto simp: save_attribute_def store_attribute_def Let_def)
  with Cons.IH [OF r] Cons.prems s r show ?case by simp
qed

lemma fold_max_ge:
  "a \<le> fold (\<lambda>i m. case i of None \<Rightarrow> m | Some k \<Rightarrow> max k m) ids (a::nat)"
proof (induction ids arbitrary: a)
  case Nil
  then show ?case by simp
next
  case (Cons i ids)
  show ?case
  proof (cases i)
    case None
    with Cons.IH [of a] show ?thesis by simp
  next
    case (Some k)
    with Cons.IH [of "max k a"] show ?thesis by simp
  qed
qed

lemma fold_max_member:
  "Some k \<in> set ids \<Longrightarrow>
     k \<le> fold (\<lambda>i m. case i of None \<Rightarrow> m | Some k \<Rightarrow> max k m) ids (a::nat)"
proof (induction ids arbitrary: a)
  case Nil
  then show ?case by simp
next
  case (Cons i ids)
  show ?case
  proof (cases "i = Some k")
    case True
    with fold_max_ge [of "max k a" ids] show ?thesis by simp
  next
    case False
    with Cons.prems have "Some k \<in> set ids" by simp
    from Cons.IH [OF this] show ?thesis by simp
  qed
qed

lemma fresh_id_fresh: "Some (fresh_id ids) \<notin> set ids"
proof
  assume "Some (fresh_id ids) \<in> set ids"
  from fold_max_member [OF this, of 0] show False by (simp add: fresh_id_def)
qed

lemma store_product_error:
  "(\<exists>e. store_product db q = Inl e) \<longleftrightarrow>
     (\<exists>x \<in> set (products db).
        (prod_id q = None \<or> prod_id x \<noteq> prod_id q) \<and>
        (prod_name x = prod_name q \<or> prod_slug x = prod_slug q \<or> prod_code x = prod_code q))"
proof (cases "prod_id q")
  case None
  have "prod_id x \<noteq> Some (fresh_id (map prod_id (products db)))"
    if "x \<in> set (products db)" for x
    using that fresh_id_fresh [of "map prod_id (products db)"] by force
  with None show ?thesis
    by (auto simp: store_product_def Let_def)
next
  case (Some i)
  then show ?thesis
    by (auto simp: store_product_def Let_def)
qed

section \<open>The claims\<close>

text \<open>
  C1. \<open>get_all_characteristics(c)\<close> is claimed to return the characteristics of \<open>c\<close> and
  of every ancestor of \<open>c\<close>, each ancestor once. The code does not: for the category
  ``LED Lamps'' below ``Electronics'' below ``Root'' it walks the two ancestors, adds the
  characteristics of the direct parent at each step, and never reads those of ``Root''.
  The result holds ``Voltage'' twice and ``Warranty'' not at all.
\<close>

theorem get_all_characteristics_repeats_parent:
  "get_ancestors 3 shop led_lamps = Some (Inr [electronics, root_cat]) \<and>
   category_characteristics shop led_lamps = [] \<and>
   category_characteristics shop electronics = [voltage] \<and>
   category_characteristics shop root_cat = [warranty] \<and>
   get_all_characteristics 3 shop led_lamps = Some (Inr [voltage, voltage])"
  by code_simp

text \<open>
  C2 (as amended). Let \<open>ch\<close> be a characteristic owned by the product's category or by the
  direct parent of that category. If \<open>clean\<close> succeeds, at least one attribute of the
  product, persisted or predefined, is bound to \<open>ch\<close>. If the tree is well formed, the
  category-change check passes and no attribute is bound to \<open>ch\<close>, then \<open>clean\<close> fails
  with the missing-coverage error, whose message names \<open>ch\<close> and names only
  characteristics that no attribute of the product is bound to.
\<close>

theorem clean_product_coverage:
  assumes cat: "get_category db (prod_category p) = Inr c"
    and ch: "ch \<in> set (category_characteristics db c) \<or>
             (\<exists>pid q. cat_parent c = Some pid \<and> get_category db pid = Inr q \<and>
                      ch \<in> set (category_characteristics db q))"
  shows "(clean_product fuel db p predefined = Some (Inr ()) \<longrightarrow>
            (\<exists>a \<in> set (get_all_attributes db p predefined).
               attr_characteristic a = Some (ch_id ch))) \<and>
         (wf_tree db \<and> length (categories db) < fuel \<and>
          check_category_change fuel db p = Some (Inr ()) \<and>
          Some (ch_id ch) \<notin> attr_characteristic ` set (get_all_attributes db p predefined) \<longrightarrow>
            (\<exists>names. clean_product fuel db p predefined
                        = Some (Inl (MissingCharacteristicCoverage names)) \<and>
                      ch_name ch \<in> set names \<and>
                      (\<forall>n \<in> set names. \<exists>m \<in> set (characteristics db). ch_name m = n \<and>
                         Some (ch_id m) \<notin> attr_characteristic `
                            set (get_all_attributes db p predefined))))"
proof (intro conjI impI)
  assume ok: "clean_product fuel db p predefined = Some (Inr ())"
  with cat obtain chs where chs: "get_all_characteristics fuel db c = Some (Inr chs)"
    and none: "filter (\<lambda>ch. Some (ch_id ch) \<notin>
                 set (map attr_characteristic (get_all_attributes db p predefined))) chs = []"
    by (auto simp: clean_product_def check_characteristics_def Let_def
             split: option.splits sum.splits if_splits)
  from ch have "ch \<in> set chs"
    unfolding all_characteristics_set [OF chs] by auto
  with none have "Some (ch_id ch) \<in> set (map attr_characteristic (get_all_attributes db p predefined))"
    by (auto simp: filter_empty_conv)
  then show "\<exists>a \<in> set (get_all_attributes db p predefined).
               attr_characteristic a = Some (ch_id ch)"
    by auto
next
  let ?attrs = "get_all_attributes db p predefined"
  assume a: "wf_tree db \<and> length (categories db) < fuel \<and>
          check_category_change fuel db p = Some (Inr ()) \<and>
          Some (ch_id ch) \<notin> attr_characteristic ` set ?attrs"
  from cat have cin: "c \<in> set (categories db)" by (simp add: get_category_in)
  from a wf_tree_all_characteristics [OF _ cin, of fuel] obtain chs
    where chs: "get_all_characteristics fuel db c = Some (Inr chs)" by blast
  let ?req = "remdups (filter (\<lambda>ch. Some (ch_id ch) \<notin> set (map attr_characteristic ?attrs)) chs)"
  from ch have "ch \<in> set chs"
    unfolding all_characteristics_set [OF chs] by auto
  with a have in_req: "ch \<in> set ?req" by simp
  have ne: "?req \<noteq> []"
  proof
    assume "?req = []"
    with in_req show False by (simp only: set_simps empty_iff)
  qed
  from a cat chs ne have res: "clean_product fuel db p predefined
      = Some (Inl (MissingCharacteristicCoverage (map ch_name ?req)))"
    by (simp add: clean_product_def check_characteristics_def Let_def)
  have names: "\<forall>n \<in> set (map ch_name ?req). \<exists>m \<in> set (characteristics db). ch_name m = n \<and>
                 Some (ch_id m) \<notin> attr_characteristic ` set ?attrs"
    using all_characteristics_in_table [OF chs] by auto
  from in_req have "ch_name ch \<in> set (map ch_name ?req)" by (simp only: set_map) blast
  with res names show "\<exists>names. clean_product fuel db p predefined
                        = Some (Inl (MissingCharacteristicCoverage names)) \<and>
                      ch_name ch \<in> set names \<and>
                      (\<forall>n \<in> set names. \<exists>m \<in> set (characteristics db). ch_name m = n \<and>
                         Some (ch_id m) \<notin> attr_characteristic ` set ?attrs)"
    by blast
qed

text \<open>
  The product ``Lamp'' of category ``Electronics'' with attributes for ``Voltage'' and
  ``Warranty'' passes; without the ``Voltage'' attribute it fails, naming ``Voltage''.
\<close>

theorem clean_product_coverage_witness:
  "get_category shop (prod_category lamp) = Inr electronics \<and>
   voltage \<in> set (category_characteristics shop electronics) \<and>
   clean_product 5 shop lamp [bound_to 2 ''220'', bound_to 1 ''2 years''] = Some (Inr ()) \<and>
   (\<exists>a \<in> set (get_all_attributes shop lamp [bound_to 2 ''220'', bound_to 1 ''2 years'']).
      attr_characteristic a = Some (ch_id voltage)) \<and>
   wf_tree shop \<and> length (categories shop) < 5 \<and>
   check_category_change 5 shop lamp = Some (Inr ()) \<and>
   Some (ch_id voltage) \<notin>
     attr_characteristic ` set (get_all_attributes shop lamp [bound_to 1 ''2 years'']) \<and>
   (\<exists>names. clean_product 5 shop lamp [bound_to 1 ''2 years'']
               = Some (Inl (MissingCharacteristicCoverage names)) \<and>
             ch_name voltage \<in> set names)"
proof -
  have cat: "get_category shop (prod_category lamp) = Inr electronics" by code_simp
  have ch: "voltage \<in> set (category_characteristics shop electronics)" by code_simp
  have ok: "clean_product 5 shop lamp [bound_to 2 ''220'', bound_to 1 ''2 years''] = Some (Inr ())"
    by code_simp
  have wf: "wf_tree shop" by code_simp
  have len: "length (categories shop) < 5" by code_simp
  have chg: "check_category_change 5 shop lamp = Some (Inr ())" by code_simp
  have miss: "Some (ch_id voltage) \<notin>
     attr_characteristic ` set (get_all_attributes shop lamp [bound_to 1 ''2 years''])"
    by code_simp
  from clean_product_coverage [OF cat disjI1 [OF ch], of 5 "[bound_to 2 ''220'', bound_to 1 ''2 years'']"] ok
  have one: "\<exists>a \<in> set (get_all_attributes shop lamp [bound_to 2 ''220'', bound_to 1 ''2 years'']).
      attr_characteristic a = Some (ch_id voltage)" by blast
  from clean_product_coverage [OF cat disjI1 [OF ch], of 5 "[bound_to 1 ''2 years'']"] wf len chg miss
  have two: "\<exists>names. clean_product 5 shop lamp [bound_to 1 ''2 years'']
               = Some (Inl (MissingCharacteristicCoverage names)) \<and>
             ch_name voltage \<in> set names" by blast
  from cat ch ok one wf len chg miss two show ?thesis by blast
qed

text \<open>
  C2 as stated fails. A product with two attributes bound to ``Voltage'' passes \<open>clean\<close>,
  so a covered characteristic need not have exactly one attribute. A product moved to
  the sibling category ``Furniture'' with no attribute for the inherited ``Warranty''
  fails with the category-change error, not with the missing-coverage error.
\<close>

theorem clean_product_coverage_counterexample:
  "clean_product 5 shop lamp [bound_to 2 ''220'', bound_to 2 ''230'', bound_to 1 ''2 years'']
     = Some (Inr ()) \<and>
   count_list (map attr_characteristic
       (get_all_attributes shop lamp [bound_to 2 ''220'', bound_to 2 ''230'', bound_to 1 ''2 years'']))
     (Some (ch_id voltage)) = 2 \<and>
   get_all_characteristics 5 shop furniture = Some (Inr [warranty]) \<and>
   get_all_attributes shop (lamp\<lparr>prod_category := 3\<rparr>) [] = [] \<and>
   clean_product 5 shop (lamp\<lparr>prod_category := 3\<rparr>) [] = Some (Inl IllegalCategoryChange) \<and>
   IllegalCategoryChange \<noteq> MissingCharacteristicCoverage [''Warranty'']"
  by code_simp

text \<open>
  C3. For a persisted product whose stored category is \<open>a\<close>, in a well-formed tree and
  with enough fuel, \<open>get_descendants a\<close> returns, and the category-change check passes
  exactly when the new category is \<open>a\<close> itself or one of the descendants of \<open>a\<close>;
  otherwise it fails with \<open>IllegalCategoryChange\<close>.
\<close>

theorem category_change_iff_descendant:
  assumes wf: "wf_tree db" and fuel: "length (categories db) < fuel"
    and p: "prod_id p = Some i" "get_product db i = Inr previous"
    and a: "get_category db (prod_category previous) = Inr a"
  shows "\<exists>descendants. get_descendants fuel db a = Some descendants \<and>
           check_category_change fuel db p =
             Some (if cat_id a = Some (prod_category p) \<or>
                      Some (prod_category p) \<in> cat_id ` set descendants
                   then Inr () else Inl IllegalCategoryChange)"
proof -
  from a have "a \<in> set (categories db)" by (simp add: get_category_in)
  from wf_tree_descendants [OF wf this] obtain ds
    where "get_descendants (Suc (length (categories db))) db a = Some ds" by blast
  from descendants_fuel_mono [OF this, of fuel] fuel
  have ds: "get_descendants fuel db a = Some ds" by simp
  with p a have "check_category_change fuel db p =
             Some (if cat_id a = Some (prod_category p) \<or>
                      Some (prod_category p) \<in> cat_id ` set ds
                   then Inr () else Inl IllegalCategoryChange)"
    by (simp add: check_category_change_def)
  with ds show ?thesis by blast
qed

text \<open>
  ``Lamp'' may stay in ``Electronics'' and may move to its child ``LED Lamps'', and may not
  move to the sibling ``Furniture''.
\<close>

theorem category_change_iff_descendant_witness:
  "wf_tree shop \<and> length (categories shop) < 5 \<and>
   get_product shop 1 = Inr lamp \<and> get_category shop (prod_category lamp) = Inr electronics \<and>
   get_descendants 5 shop electronics = Some [led_lamps] \<and>
   check_category_change 5 shop (lamp\<lparr>prod_category := 4\<rparr>) = Some (Inr ()) \<and>
   check_category_change 5 shop (lamp\<lparr>prod_category := 3\<rparr>) = Some (Inl IllegalCategoryChange) \<and>
   check_category_change 5 shop lamp = Some (Inr ())"
proof -
  have wf: "wf_tree shop" by code_simp
  have len: "length (categories shop) < 5" by code_simp
  have get: "get_product shop 1 = Inr lamp" by code_simp
  have cat: "get_category shop (prod_category lamp) = Inr electronics" by code_simp
  have ds: "get_descendants 5 shop electronics = Some [led_lamps]" by code_simp
  have ids: "prod_id (lamp\<lparr>prod_category := 4\<rparr>) = Some 1"
    "prod_id (lamp\<lparr>prod_category := 3\<rparr>) = Some 1" "prod_id lamp = Some 1"
    by (simp_all add: lamp_def)
  have vals: "cat_id electronics = Some 2" "cat_id led_lamps = Some 4"
    "prod_category lamp = 2"
    by (simp_all add: electronics_def led_lamps_def lamp_def)
  from category_change_iff_descendant [OF wf len ids(1) get cat] ds vals
  have a: "check_category_change 5 shop (lamp\<lparr>prod_category := 4\<rparr>) = Some (Inr ())"
    by simp
  from category_change_iff_descendant [OF wf len ids(2) get cat] ds vals
  have b: "check_category_change 5 shop (lamp\<lparr>prod_category := 3\<rparr>)
             = Some (Inl IllegalCategoryChange)"
    by simp
  from category_change_iff_descendant [OF wf len ids(3) get cat] ds vals
  have c: "check_category_change 5 shop lamp = Some (Inr ())"
    by simp
  from wf len get cat ds a b c show ?thesis by blast
qed

text \<open>
  C4 (as amended). Saving an attribute sets \<open>value_float\<close> to the parsed number when
  \<open>value\<close> parses; when it does not parse the save still stores the attribute, and
  \<open>value_float\<close> keeps the value it had before the save.
\<close>

theorem save_attribute_value_float:
  "value_float (fst (save_attribute float db a)) =
     (case float (attr_value a) of Some x \<Rightarrow> Some x | None \<Rightarrow> value_float a) \<and>
   attr_value (fst (save_attribute float db a)) = attr_value a \<and>
   fst (save_attribute float db a) \<in> set (attributes (snd (save_attribute float db a)))"
  by (auto simp: save_attribute_def store_attribute_def Let_def split: option.splits)

text \<open>
  ``19.99'' yields 19.99; ``N/A'' leaves a fresh attribute at \<open>None\<close> and an attribute
  that held 220 at 220.
\<close>

theorem save_attribute_value_float_witness:
  "value_float (fst (save_attribute float_literal shop (bound_to 2 ''19.99''))) = Some (1999 / 100) \<and>
   value_float (fst (save_attribute float_literal shop (bound_to 2 ''N/A''))) = None \<and>
   value_float (fst (save_attribute float_literal shop
       ((bound_to 2 ''N/A'')\<lparr>value_float := Some 220\<rparr>))) = Some 220"
  using save_attribute_value_float [of float_literal shop "bound_to 2 ''19.99''"]
    save_attribute_value_float [of float_literal shop "bound_to 2 ''N/A''"]
    save_attribute_value_float [of float_literal shop "(bound_to 2 ''N/A'')\<lparr>value_float := Some 220\<rparr>"]
  by (simp add: float_literal_def bound_to_def)

text \<open>
  C4 as stated fails: an attribute whose \<open>value_float\<close> was 220 and whose value is now
  ``N/A'' does not parse, and after the save its \<open>value_float\<close> is not \<open>None\<close>.
\<close>

theorem save_attribute_stale_float_counterexample:
  "float_literal (attr_value ((bound_to 2 ''N/A'')\<lparr>value_float := Some 220\<rparr>)) = None \<and>
   value_float (fst (save_attribute float_literal shop
       ((bound_to 2 ''N/A'')\<lparr>value_float := Some 220\<rparr>))) \<noteq> None"
  by (simp add: float_literal_def bound_to_def save_attribute_def store_attribute_def Let_def
           split: option.splits)

text \<open>
  C5. \<open>Category.clean\<close> recomputes the slug from the name and fails with
  \<open>DuplicateSiblingSlug\<close> exactly when a row with the same parent (both \<open>None\<close> for
  roots) and another id already has that slug; otherwise it succeeds.
\<close>

theorem clean_category_duplicate_sibling:
  "clean_category slugify unidecode db c =
     (c\<lparr>cat_slug := slugify (unidecode (cat_name c))\<rparr>,
      if \<exists>s \<in> set (categories db).
           cat_parent s = cat_parent c \<and> cat_id s \<noteq> cat_id c \<and>
           cat_slug s = slugify (unidecode (cat_name c))
      then Inl DuplicateSiblingSlug
      else Inr ())"
  by (auto simp: clean_category_def get_siblings_def get_top_categories_def Let_def
                 filter_empty_conv)

text \<open>
  A new category ``furniture'' below ``Root'' collides with ``Furniture''; a new category
  ``garden'' does not; ``Furniture'' itself, cleaned again, does not collide with its own
  row.
\<close>

theorem clean_category_duplicate_sibling_witness:
  "clean_category id id shop (new_category ''furniture'')
     = ((new_category ''furniture'')\<lparr>cat_slug := ''furniture''\<rparr>, Inl DuplicateSiblingSlug) \<and>
   clean_category id id shop (new_category ''garden'')
     = ((new_category ''garden'')\<lparr>cat_slug := ''garden''\<rparr>, Inr ()) \<and>
   clean_category id id shop (furniture\<lparr>cat_name := ''furniture''\<rparr>)
     = (furniture\<lparr>cat_name := ''furniture''\<rparr>, Inr ())"
proof -
  have a: "\<exists>s \<in> set (categories shop).
           cat_parent s = cat_parent (new_category ''furniture'') \<and>
           cat_id s \<noteq> cat_id (new_category ''furniture'') \<and>
           cat_slug s = id (id (cat_name (new_category ''furniture'')))"
    by code_simp
  have b: "\<not> (\<exists>s \<in> set (categories shop).
           cat_parent s = cat_parent (new_category ''garden'') \<and>
           cat_id s \<noteq> cat_id (new_category ''garden'') \<and>
           cat_slug s = id (id (cat_name (new_category ''garden''))))"
    by code_simp
  have c: "\<not> (\<exists>s \<in> set (categories shop).
           cat_parent s = cat_parent (furniture\<lparr>cat_name := ''furniture''\<rparr>) \<and>
           cat_id s \<noteq> cat_id (furniture\<lparr>cat_name := ''furniture''\<rparr>) \<and>
           cat_slug s = id (id (cat_name (furniture\<lparr>cat_name := ''furniture''\<rparr>))))"
    by code_simp
  show ?thesis
    using clean_category_duplicate_sibling [of id id shop "new_category ''furniture''"]
      clean_category_duplicate_sibling [of id id shop "new_category ''garden''"]
      clean_category_duplicate_sibling [of id id shop "furniture\<lparr>cat_name := ''furniture''\<rparr>"]
      a b c
    by (simp add: new_category_def furniture_def)
qed

text \<open>
  C6. \<open>ProductAttribute.clean\<close> fails with \<open>AttributeIdentityConflict\<close> when both the
  characteristic and the name are set, fails with \<open>AttributeIdentityMissing\<close> when
  neither is set, and succeeds when exactly one is set; the two errors are different.
\<close>

theorem clean_attribute_exactly_one:
  "(attr_characteristic a \<noteq> None \<and> attr_name a \<noteq> [] \<longrightarrow>
      clean_attribute a = Inl AttributeIdentityConflict) \<and>
   (attr_characteristic a = None \<and> attr_name a = [] \<longrightarrow>
      clean_attribute a = Inl AttributeIdentityMissing) \<and>
   ((attr_characteristic a \<noteq> None) \<noteq> (attr_name a \<noteq> []) \<longrightarrow>
      clean_attribute a = Inr ()) \<and>
   AttributeIdentityConflict \<noteq> AttributeIdentityMissing"
  by (auto simp: clean_attribute_def AttributeIdentityConflict_def AttributeIdentityMissing_def)

text \<open>One attribute for each of the three cases.\<close>

theorem clean_attribute_exactly_one_witness:
  "clean_attribute \<lparr>attr_id = None, attr_characteristic = Some 1, attr_product = Some 1,
      attr_name = ''Colour'', attr_value = ''red'', value_float = (None :: real option)\<rparr>
     = Inl AttributeIdentityConflict \<and>
   clean_attribute \<lparr>attr_id = None, attr_characteristic = None, attr_product = Some 1,
      attr_name = '''', attr_value = ''red'', value_float = (None :: real option)\<rparr>
     = Inl AttributeIdentityMissing \<and>
   clean_attribute \<lparr>attr_id = None, attr_characteristic = None, attr_product = Some 1,
      attr_name = ''Colour'', attr_value = ''red'', value_float = (None :: real option)\<rparr>
     = Inr ()"
  using clean_attribute_exactly_one [of "\<lparr>attr_id = None, attr_characteristic = Some 1, attr_product = Some 1,
      attr_name = ''Colour'', attr_value = ''red'', value_float = (None :: real option)\<rparr>"]
    clean_attribute_exactly_one [of "\<lparr>attr_id = None, attr_characteristic = None, attr_product = Some 1,
      attr_name = '''', attr_value = ''red'', value_float = (None :: real option)\<rparr>"]
    clean_attribute_exactly_one [of "\<lparr>attr_id = None, attr_characteristic = None, attr_product = Some 1,
      attr_name = ''Colour'', attr_value = ''red'', value_float = (None :: real option)\<rparr>"]
  by simp

text \<open>
  C7 (as amended). \<open>Category.save\<close> always succeeds and stores the category with the
  slug recomputed from its name, whatever the slugs of its siblings. \<open>Product.save\<close>,
  whenever it succeeds, stores the product with the slug recomputed from its name. It
  runs no validation, so its only error is \<open>IntegrityError\<close>, and it fails exactly when
  another row of the product table already holds the product's name, its recomputed
  slug or its code, the three columns declared \<open>unique=True\<close>.
\<close>

theorem save_recomputes_slug:
  "cat_slug (fst (save_category slugify unidecode db c)) = slugify (unidecode (cat_name c)) \<and>
   cat_name (fst (save_category slugify unidecode db c)) = cat_name c \<and>
   fst (save_category slugify unidecode db c)
     \<in> set (categories (snd (save_category slugify unidecode db c))) \<and>
   (save_product slugify unidecode float db p predefined = Inr (p', saved, db') \<longrightarrow>
      prod_slug p' = slugify (unidecode (prod_name p)) \<and>
      prod_name p' = prod_name p \<and>
      p' \<in> set (products db')) \<and>
   (save_product slugify unidecode float db p predefined = Inl e \<longrightarrow> e = IntegrityError) \<and>
   ((\<exists>e. save_product slugify unidecode float db p predefined = Inl e) \<longleftrightarrow>
      (\<exists>x \<in> set (products db).
         (prod_id p = None \<or> prod_id x \<noteq> prod_id p) \<and>
         (prod_name x = prod_name p \<or>
          prod_slug x = slugify (unidecode (prod_name p)) \<or>
          prod_code x = prod_code p)))"
proof (intro conjI impI)
  assume s: "save_product slugify unidecode float db p predefined = Inr (p', saved, db')"
  let ?p = "p\<lparr>prod_slug := slugify (unidecode (prod_name p))\<rparr>"
  from s obtain db1 where st: "store_product db ?p = Inr (p', db1)"
    and pre: "save_predefined float p' db1 predefined = (saved, db')"
    by (auto simp: save_product_def split: sum.splits prod.splits)
  from st have p': "prod_slug p' = slugify (unidecode (prod_name p))" "prod_name p' = prod_name p"
    "p' \<in> set (products db1)"
    by (auto simp: store_product_def Let_def split: if_splits option.splits)
  from p' show "prod_slug p' = slugify (unidecode (prod_name p))" by simp
  from p' show "prod_name p' = prod_name p" by simp
  from p' save_predefined_products [OF pre] show "p' \<in> set (products db')" by simp
next
  assume "save_product slugify unidecode float db p predefined = Inl e"
  then show "e = IntegrityError"
    by (auto simp: save_product_def store_product_def Let_def
             split: sum.splits prod.splits if_splits)
next
  let ?p = "p\<lparr>prod_slug := slugify (unidecode (prod_name p))\<rparr>"
  have "(\<exists>e. save_product slugify unidecode float db p predefined = Inl e)
          \<longleftrightarrow> (\<exists>e. store_product db ?p = Inl e)"
    by (auto simp: save_product_def split: sum.splits prod.splits)
  also have "\<dots> \<longleftrightarrow> (\<exists>x \<in> set (products db).
         (prod_id p = None \<or> prod_id x \<noteq> prod_id p) \<and>
         (prod_name x = prod_name p \<or>
          prod_slug x = slugify (unidecode (prod_name p)) \<or>
          prod_code x = prod_code p))"
    using store_product_error [of db ?p] by simp
  finally show "(\<exists>e. save_product slugify unidecode float db p predefined = Inl e) \<longleftrightarrow>
      (\<exists>x \<in> set (products db).
         (prod_id p = None \<or> prod_id x \<noteq> prod_id p) \<and>
         (prod_name x = prod_name p \<or>
          prod_slug x = slugify (unidecode (prod_name p)) \<or>
          prod_code x = prod_code p))" .
qed (auto simp: save_category_def store_category_def Let_def split: option.splits)

text \<open>
  A category whose \<open>clean\<close> reports a duplicate sibling slug is saved all the same, a
  new product is saved with its recomputed slug, and a product whose recomputed slug is
  taken is refused with \<open>IntegrityError\<close>.
\<close>

theorem save_recomputes_slug_witness:
  "snd (clean_category id id shop (new_category ''furniture'')) = Inl DuplicateSiblingSlug \<and>
   cat_slug (fst (save_category id id shop (new_category ''furniture''))) = ''furniture'' \<and>
   save_product id id float_literal shop desk_lamp [bound_to 2 ''220''] =
     Inr (desk_lamp\<lparr>prod_id := Some 2, prod_slug := ''desk-lamp''\<rparr>,
          [(bound_to 2 ''220'')\<lparr>attr_id := Some 1, attr_product := Some 2,
                                 value_float := Some 220\<rparr>],
          shop\<lparr>products := [lamp, desk_lamp\<lparr>prod_id := Some 2, prod_slug := ''desk-lamp''\<rparr>],
               attributes := [(bound_to 2 ''220'')\<lparr>attr_id := Some 1, attr_product := Some 2,
                                                    value_float := Some 220\<rparr>]\<rparr>) \<and>
   prod_slug (desk_lamp\<lparr>prod_id := Some 2, prod_slug := ''desk-lamp''\<rparr>)
     = id (id (prod_name desk_lamp)) \<and>
   lamp \<in> set (products shop) \<and>
   prod_slug lamp = id (id (prod_name (desk_lamp\<lparr>prod_name := ''lamp''\<rparr>))) \<and>
   save_product id id float_literal shop (desk_lamp\<lparr>prod_name := ''lamp''\<rparr>) [bound_to 2 ''220'']
     = Inl IntegrityError"
proof -
  have dup: "snd (clean_category id id shop (new_category ''furniture'')) = Inl DuplicateSiblingSlug"
    by code_simp
  have cat: "cat_slug (fst (save_category id id shop (new_category ''furniture''))) = ''furniture''"
    using save_recomputes_slug [of id id shop "new_category ''furniture''"]
    by (simp add: new_category_def)
  have r: "save_product id id float_literal shop desk_lamp [bound_to 2 ''220''] =
     Inr (desk_lamp\<lparr>prod_id := Some 2, prod_slug := ''desk-lamp''\<rparr>,
          [(bound_to 2 ''220'')\<lparr>attr_id := Some 1, attr_product := Some 2,
                                 value_float := Some 220\<rparr>],
          shop\<lparr>products := [lamp, desk_lamp\<lparr>prod_id := Some 2, prod_slug := ''desk-lamp''\<rparr>],
               attributes := [(bound_to 2 ''220'')\<lparr>attr_id := Some 1, attr_product := Some 2,
                                                    value_float := Some 220\<rparr>]\<rparr>)"
    by code_simp
  have ok: "prod_slug (desk_lamp\<lparr>prod_id := Some 2, prod_slug := ''desk-lamp''\<rparr>)
     = id (id (prod_name desk_lamp))"
    using save_recomputes_slug [of id id shop "new_category ''furniture''" float_literal desk_lamp
         "[bound_to 2 ''220'']"
         "desk_lamp\<lparr>prod_id := Some 2, prod_slug := ''desk-lamp''\<rparr>"
         "[(bound_to 2 ''220'')\<lparr>attr_id := Some 1, attr_product := Some 2,
                                 value_float := Some 220\<rparr>]"
         "shop\<lparr>products := [lamp, desk_lamp\<lparr>prod_id := Some 2, prod_slug := ''desk-lamp''\<rparr>],
               attributes := [(bound_to 2 ''220'')\<lparr>attr_id := Some 1, attr_product := Some 2,
                                                    value_float := Some 220\<rparr>]\<rparr>"] r
    by blast
  have mem: "lamp \<in> set (products shop)" by code_simp
  have new: "prod_id (desk_lamp\<lparr>prod_name := ''lamp''\<rparr>) = None" by code_simp
  have slug: "prod_slug lamp = id (id (prod_name (desk_lamp\<lparr>prod_name := ''lamp''\<rparr>)))"
    by code_simp
  from mem new slug
  have "\<exists>x \<in> set (products shop).
         (prod_id (desk_lamp\<lparr>prod_name := ''lamp''\<rparr>) = None \<or>
          prod_id x \<noteq> prod_id (desk_lamp\<lparr>prod_name := ''lamp''\<rparr>)) \<and>
         (prod_name x = prod_name (desk_lamp\<lparr>prod_name := ''lamp''\<rparr>) \<or>
          prod_slug x = id (id (prod_name (desk_lamp\<lparr>prod_name := ''lamp''\<rparr>))) \<or>
          prod_code x = prod_code (desk_lamp\<lparr>prod_name := ''lamp''\<rparr>))"
    by blast
  with save_recomputes_slug [of id id shop "new_category ''furniture''" float_literal
         "desk_lamp\<lparr>prod_name := ''lamp''\<rparr>" "[bound_to 2 ''220'']"]
  obtain e where e: "save_product id id float_literal shop
         (desk_lamp\<lparr>prod_name := ''lamp''\<rparr>) [bound_to 2 ''220''] = Inl e"
    by blast
  with save_recomputes_slug [of id id shop "new_category ''furniture''" float_literal
         "desk_lamp\<lparr>prod_name := ''lamp''\<rparr>" "[bound_to 2 ''220'']" _ _ _ e]
  have "e = IntegrityError" by blast
  with e have fail: "save_product id id float_literal shop
         (desk_lamp\<lparr>prod_name := ''lamp''\<rparr>) [bound_to 2 ''220''] = Inl IntegrityError"
    by simp
  from dup cat r ok mem slug fail show ?thesis by blast
qed

text \<open>
  C7 as stated fails for products: the slug recomputed at save time is subject to the
  uniqueness of the slug column. A new product named ``lamp'' differs from ``Lamp'' in
  name and code, its recomputed slug is the slug of ``Lamp'', and the save fails.
\<close>

theorem save_product_slug_collision_counterexample:
  "prod_name lamp \<noteq> prod_name (desk_lamp\<lparr>prod_name := ''lamp''\<rparr>) \<and>
   prod_code lamp \<noteq> prod_code (desk_lamp\<lparr>prod_name := ''lamp''\<rparr>) \<and>
   prod_slug lamp = id (id (prod_name (desk_lamp\<lparr>prod_name := ''lamp''\<rparr>))) \<and>
   save_product id id float_literal shop (desk_lamp\<lparr>prod_name := ''lamp''\<rparr>) []
     = Inl IntegrityError"
  by code_simp

text \<open>
  C8. In a well-formed tree, for every category \<open>c\<close> of the table, \<open>get_ancestors\<close> and
  \<open>get_descendants\<close> both return (a finite list), and neither list holds a category
  with the id of \<open>c\<close>.
\<close>

theorem tree_no_self_membership:
  assumes wf: "wf_tree db" and c: "c \<in> set (categories db)"
  shows "\<exists>ancestors descendants.
           get_ancestors (Suc (length (categories db))) db c = Some (Inr ancestors) \<and>
           get_descendants (Suc (length (categories db))) db c = Some descendants \<and>
           cat_id c \<notin> cat_id ` set ancestors \<and>
           cat_id c \<notin> cat_id ` set descendants"
proof -
  from wf have d: "distinct (map cat_id (categories db))" by (simp add: wf_tree_def)
  from wf_tree_ancestors [OF wf c] obtain xs
    where xs: "get_ancestors (Suc (length (categories db))) db c = Some (Inr xs)" by blast
  from wf_tree_descendants [OF wf c] obtain ds
    where ds: "get_descendants (Suc (length (categories db))) db c = Some ds" by blast
  from ancestors_no_self [OF d c xs] descendants_no_self [OF ds] xs ds
  show ?thesis by blast
qed

text \<open>``Electronics'' has the ancestor ``Root'' and the descendant ``LED Lamps''.\<close>

theorem tree_no_self_membership_witness:
  "wf_tree shop \<and> electronics \<in> set (categories shop) \<and>
   get_ancestors (Suc (length (categories shop))) shop electronics = Some (Inr [root_cat]) \<and>
   get_descendants (Suc (length (categories shop))) shop electronics = Some [led_lamps] \<and>
   cat_id electronics \<notin> cat_id ` set [root_cat] \<and>
   cat_id electronics \<notin> cat_id ` set [led_lamps]"
proof -
  have wf: "wf_tree shop" by code_simp
  have c: "electronics \<in> set (categories shop)" by code_simp
  have an: "get_ancestors (Suc (length (categories shop))) shop electronics = Some (Inr [root_cat])"
    by code_simp
  have de: "get_descendants (Suc (length (categories shop))) shop electronics = Some [led_lamps]"
    by code_simp
  from tree_no_self_membership [OF wf c] an de
  have "cat_id electronics \<notin> cat_id ` set [root_cat] \<and>
        cat_id electronics \<notin> cat_id ` set [led_lamps]"
    by simp
  with wf c an de show ?thesis by blast
qed

text \<open>
  C9. An attribute whose name is the empty string passes \<open>clean\<close> when its
  characteristic is set, and fails with \<open>AttributeIdentityMissing\<close> when it is not.
\<close>

theorem clean_attribute_empty_name:
  "attr_name a = [] \<Longrightarrow>
     clean_attribute a =
       (if attr_characteristic a \<noteq> None then Inr () else Inl AttributeIdentityMissing)"
  by (simp add: clean_attribute_def)

text \<open>An attribute bound to a characteristic, and the same attribute unbound.\<close>

theorem clean_attribute_empty_name_witness:
  "attr_name (bound_to 2 ''220'') = [] \<and>
   clean_attribute (bound_to 2 ''220'') = Inr () \<and>
   attr_name ((bound_to 2 ''220'')\<lparr>attr_characteristic := None\<rparr>) = [] \<and>
   clean_attribute ((bound_to 2 ''220'')\<lparr>attr_characteristic := None\<rparr>)
     = Inl AttributeIdentityMissing"
proof -
  have a: "attr_name (bound_to 2 ''220'') = []" by (simp add: bound_to_def)
  have b: "attr_name ((bound_to 2 ''220'')\<lparr>attr_characteristic := None\<rparr>) = []"
    by (simp add: bound_to_def)
  from clean_attribute_empty_name [OF a] clean_attribute_empty_name [OF b] a b
  show ?thesis by (simp add: bound_to_def)
qed

text \<open>
  C10. Whenever \<open>Category.clean\<close> fails, it fails with \<open>DuplicateSiblingSlug\<close>, and the
  instance it leaves behind already carries the recomputed slug, which is the slug of
  one of its siblings.
\<close>

theorem clean_category_mutates_before_check:
  "clean_category slugify unidecode db c = (c', Inl e) \<Longrightarrow>
     e = DuplicateSiblingSlug \<and>
     c' = c\<lparr>cat_slug := slugify (unidecode (cat_name c))\<rparr> \<and>
     (\<exists>s \<in> set (get_siblings db c'). cat_slug s = cat_slug c')"
  by (auto simp: clean_category_def Let_def filter_empty_conv split: if_splits)

text \<open>
  A new category named ``furniture'' enters \<open>clean\<close> with the slug ``stale'' and leaves it,
  on failure, with the slug ``furniture'' of its sibling.
\<close>

theorem clean_category_mutates_before_check_witness:
  "clean_category id id shop (new_category ''furniture'')
     = ((new_category ''furniture'')\<lparr>cat_slug := ''furniture''\<rparr>, Inl DuplicateSiblingSlug) \<and>
   cat_slug (new_category ''furniture'') = ''stale'' \<and>
   furniture \<in> set (get_siblings shop ((new_category ''furniture'')\<lparr>cat_slug := ''furniture''\<rparr>)) \<and>
   cat_slug furniture = ''furniture''"
proof -
  have r: "clean_category id id shop (new_category ''furniture'')
     = ((new_category ''furniture'')\<lparr>cat_slug := ''furniture''\<rparr>, Inl DuplicateSiblingSlug)"
    by code_simp
  have s: "furniture \<in> set (get_siblings shop ((new_category ''furniture'')\<lparr>cat_slug := ''furniture''\<rparr>))"
    by code_simp
  from clean_category_mutates_before_check [OF r] r s show ?thesis
    by (simp add: new_category_def furniture_def)
qed

end
